theory Spec2Isabelle
  imports Main
begin

section \<open>The channel pool of \<open>channel.go\<close>\<close>

text \<open>
  The pool keeps idle connections in a buffered Go channel and calls three user callbacks
  (factory, close, ping). The embedding is sequential: one caller, the mutex is never
  contended and is left out, and the callbacks do not call back into the pool.

  \<^item> An \<open>interface{}\<close> value is \<open>'r option\<close>; \<open>None\<close> is the nil interface.
  \<^item> A Go \<open>error\<close> is \<open>error option\<close>; \<open>None\<close> is the nil error.
  \<^item> A function field is an \<open>option\<close>; \<open>None\<close> is the nil function, calling it panics.
  \<^item> What the callbacks do to the outside is recorded in a \<open>world\<close>: how often the factory
    ran, the arguments the close and ping callbacks received in order, the lines printed,
    and the clock read by \<open>time.Now()\<close>. The clock does not move during one operation.
  \<^item> The factory is a closure; its result may differ from call to call, so it is a function
    of the number of calls made before.
\<close>

subsection \<open>Data\<close>

datatype error =
    ErrClosed                    \<comment> \<open>\<open>pool is closed\<close>\<close>
  | InvalidCapacity              \<comment> \<open>\<open>invalid capacity settings\<close>\<close>
  | InvalidFactoryFunc           \<comment> \<open>\<open>invalid factory func settings\<close>\<close>
  | InvalidCloseFunc             \<comment> \<open>\<open>invalid close func settings\<close>\<close>
  | ConnectionIsNil              \<comment> \<open>\<open>connection is nil. rejecting\<close>\<close>
  | FactoryNotAbleToFill error   \<comment> \<open>\<open>factory is not able to fill the pool: %s\<close>\<close>
  | CallbackError string         \<comment> \<open>an error made by a user callback\<close>

text \<open>How a call ends: it panics, it blocks for ever, or it returns.\<close>

datatype 'a outcome = Panicked | Blocked | Returned 'a

type_synonym 'r factory_func = "nat \<Rightarrow> error + 'r option"
type_synonym 'r conn_func = "'r option \<Rightarrow> error option"

record 'r Config =
  InitialCap :: int
  MaxCap :: int
  Factory :: "'r factory_func option"
  Close_cfg :: "'r conn_func option"
  Ping_cfg :: "'r conn_func option"
  IdleTimeout :: int

record 'r idleConn =
  conn :: "'r option"
  t :: int

text \<open>A buffered channel of \<open>*idleConn\<close>: its queue, its capacity, and whether it was closed.\<close>

record 'r chan =
  buf :: "'r idleConn list"
  cap :: nat
  closed :: bool

record 'r channelPool =
  conns :: "'r chan option"
  factory :: "'r factory_func option"
  close :: "'r conn_func option"
  ping :: "'r conn_func option"
  idleTimeout :: int

record 'r world =
  created :: nat
  destroyed :: "'r option list"
  pinged :: "'r option list"
  printed :: "error list"
  now :: int

subsection \<open>Close, Ping, Len\<close>

definition Close :: "'r channelPool \<Rightarrow> 'r world \<Rightarrow> 'r option \<Rightarrow> error option \<times> 'r world" where
  "Close c w x =
     (if x = None then (Some ConnectionIsNil, w)
      else case close c of
             None \<Rightarrow> (None, w)
           | Some f \<Rightarrow> (f x, w\<lparr>destroyed := destroyed w @ [x]\<rparr>))"

definition Ping :: "'r channelPool \<Rightarrow> 'r world \<Rightarrow> 'r option \<Rightarrow> (error option \<times> 'r world) outcome" where
  "Ping c w x =
     (if x = None then Returned (Some ConnectionIsNil, w)
      else case ping c of
             None \<Rightarrow> Panicked
           | Some f \<Rightarrow> Returned (f x, w\<lparr>pinged := pinged w @ [x]\<rparr>))"

definition Len :: "'r channelPool \<Rightarrow> nat" where
  "Len c = (case conns c of None \<Rightarrow> 0 | Some ch \<Rightarrow> length (buf ch))"

subsection \<open>Get\<close>

text \<open>
  The \<open>for { select { ... } }\<close> loop of \<open>Get\<close>, on the channel \<open>ch\<close> that \<open>getConns\<close>
  returned. A receive from a closed, empty channel yields nil. The loop has a branch that
  continues without changing anything (the factory is nil), so it need not return: the
  value \<open>None\<close> of this function is the loop running for ever.
\<close>

partial_function (option) get_loop ::
  "'r channelPool \<Rightarrow> 'r chan \<Rightarrow> 'r world \<Rightarrow> ((error + 'r option) outcome \<times> 'r chan \<times> 'r world) option"
where
  "get_loop c ch w =
     (case buf ch of
        wrapConn # rest \<Rightarrow>
          (if idleTimeout c > 0 \<and> t wrapConn + idleTimeout c < now w
           then get_loop c (ch\<lparr>buf := rest\<rparr>) (snd (Close c w (conn wrapConn)))
           else if ping c \<noteq> None
           then (case Ping c w (conn wrapConn) of
                   Returned (err, w') \<Rightarrow>
                     (case err of
                        Some e \<Rightarrow> get_loop c (ch\<lparr>buf := rest\<rparr>) (w'\<lparr>printed := printed w' @ [e]\<rparr>)
                      | None \<Rightarrow> Some (Returned (Inr (conn wrapConn)), ch\<lparr>buf := rest\<rparr>, w'))
                 | Panicked \<Rightarrow> Some (Panicked, ch\<lparr>buf := rest\<rparr>, w)
                 | Blocked \<Rightarrow> Some (Blocked, ch\<lparr>buf := rest\<rparr>, w))
           else Some (Returned (Inr (conn wrapConn)), ch\<lparr>buf := rest\<rparr>, w))
      | [] \<Rightarrow>
          (if closed ch then Some (Returned (Inl ErrClosed), ch, w)
           else case factory c of
                  None \<Rightarrow> get_loop c ch w
                | Some f \<Rightarrow>
                    (case f (created w) of
                       Inl err \<Rightarrow> Some (Returned (Inl err), ch, w\<lparr>created := Suc (created w)\<rparr>)
                     | Inr x \<Rightarrow> Some (Returned (Inr x), ch, w\<lparr>created := Suc (created w)\<rparr>))))"

declare get_loop.simps [code]

definition Get ::
  "'r channelPool \<Rightarrow> 'r world \<Rightarrow> ((error + 'r option) outcome \<times> 'r channelPool \<times> 'r world) option"
where
  "Get c w =
     (case conns c of
        None \<Rightarrow> Some (Returned (Inl ErrClosed), c, w)
      | Some ch \<Rightarrow>
          (case get_loop c ch w of
             None \<Rightarrow> None
           | Some (r, ch', w') \<Rightarrow> Some (r, c\<lparr>conns := Some ch'\<rparr>, w')))"

subsection \<open>Put\<close>

definition Put ::
  "'r channelPool \<Rightarrow> 'r world \<Rightarrow> 'r option \<Rightarrow> (error option \<times> 'r channelPool \<times> 'r world) outcome"
where
  "Put c w x =
     (if x = None then Returned (Some ConnectionIsNil, c, w)
      else case conns c of
             None \<Rightarrow> (case Close c w x of (e, w') \<Rightarrow> Returned (e, c, w'))
           | Some ch \<Rightarrow>
               (if closed ch then Panicked
                else if length (buf ch) < cap ch
                then Returned (None, c\<lparr>conns := Some (ch\<lparr>buf := buf ch @ [\<lparr>conn = x, t = now w\<rparr>]\<rparr>)\<rparr>, w)
                else case Close c w x of (e, w') \<Rightarrow> Returned (e, c, w')))"

subsection \<open>Release\<close>

text \<open>The \<open>range\<close> loop over the closed channel: the captured \<open>closeFun\<close> on every entry.\<close>

fun drain :: "'r conn_func option \<Rightarrow> 'r idleConn list \<Rightarrow> 'r world \<Rightarrow> 'r world outcome" where
  "drain closeFun [] w = Returned w"
| "drain closeFun (wrapConn # rest) w =
     (case closeFun of
        None \<Rightarrow> Panicked
      | Some f \<Rightarrow> drain closeFun rest (w\<lparr>destroyed := destroyed w @ [conn wrapConn]\<rparr>))"

definition Release :: "'r channelPool \<Rightarrow> 'r world \<Rightarrow> ('r channelPool \<times> 'r world) outcome" where
  "Release c w =
     (let c' = c\<lparr>conns := None, factory := None, ping := None, close := None\<rparr>
      in case conns c of
           None \<Rightarrow> Returned (c', w)
         | Some ch \<Rightarrow>
             (if closed ch then Panicked
              else case drain (close c) (buf ch) w of
                     Returned w' \<Rightarrow> Returned (c', w')
                   | Panicked \<Rightarrow> Panicked
                   | Blocked \<Rightarrow> Blocked))"

subsection \<open>NewChannelPool\<close>

text \<open>
  The filling loop, with the number of rounds left. The send \<open>c.conns <- ...\<close> is a
  blocking one: on a full or nil channel it never returns, on a closed one it panics.
\<close>

fun fill ::
  "'r channelPool \<Rightarrow> nat \<Rightarrow> 'r world \<Rightarrow> ((error + 'r channelPool) \<times> 'r world) outcome"
where
  "fill c 0 w = Returned (Inr c, w)"
| "fill c (Suc n) w =
     (case factory c of
        None \<Rightarrow> Panicked
      | Some f \<Rightarrow>
          (case f (created w) of
             Inl err \<Rightarrow>
               (case Release c (w\<lparr>created := Suc (created w)\<rparr>) of
                  Returned (c', w') \<Rightarrow> Returned (Inl (FactoryNotAbleToFill err), w')
                | Panicked \<Rightarrow> Panicked
                | Blocked \<Rightarrow> Blocked)
           | Inr x \<Rightarrow>
               (case conns c of
                  None \<Rightarrow> Blocked
                | Some ch \<Rightarrow>
                    (if closed ch then Panicked
                     else if length (buf ch) < cap ch
                     then fill (c\<lparr>conns := Some (ch\<lparr>buf := buf ch @ [\<lparr>conn = x, t = now w\<rparr>]\<rparr>)\<rparr>)
                            n (w\<lparr>created := Suc (created w)\<rparr>)
                     else Blocked))))"

definition NewChannelPool ::
  "'r Config \<Rightarrow> 'r world \<Rightarrow> ((error + 'r channelPool) \<times> 'r world) outcome"
where
  "NewChannelPool poolConfig w =
     (if InitialCap poolConfig < 0 \<or> MaxCap poolConfig \<le> 0 \<or> InitialCap poolConfig > MaxCap poolConfig
      then Returned (Inl InvalidCapacity, w)
      else if Factory poolConfig = None then Returned (Inl InvalidFactoryFunc, w)
      else if Close_cfg poolConfig = None then Returned (Inl InvalidCloseFunc, w)
      else fill \<lparr>conns = Some \<lparr>buf = [], cap = nat (MaxCap poolConfig), closed = False\<rparr>,
                 factory = Factory poolConfig,
                 close = Close_cfg poolConfig,
                 ping = Ping_cfg poolConfig,
                 idleTimeout = IdleTimeout poolConfig\<rparr>
                (nat (InitialCap poolConfig)) w)"

subsection \<open>Test fixtures\<close>

text \<open>
  Callbacks and states for the concrete runs below: a factory that hands out the numbers
  0, 1, 2, ... as connections, a close callback that always reports an error, a ping
  callback that rejects every connection and one that accepts every connection, and an
  open pool holding given connections.
\<close>

definition test_factory :: "nat factory_func" where
  "test_factory n = Inr (Some n)"

definition test_close :: "nat conn_func" where
  "test_close x = Some (CallbackError ''close failed'')"

definition test_ping_fail :: "nat conn_func" where
  "test_ping_fail x = Some (CallbackError ''unreachable'')"

definition test_ping_ok :: "nat conn_func" where
  "test_ping_ok x = None"

definition test_config :: "int \<Rightarrow> int \<Rightarrow> nat conn_func option \<Rightarrow> int \<Rightarrow> nat Config" where
  "test_config i m p d =
     \<lparr>InitialCap = i, MaxCap = m, Factory = Some test_factory, Close_cfg = Some test_close,
      Ping_cfg = p, IdleTimeout = d\<rparr>"

definition test_pool :: "nat list \<Rightarrow> nat \<Rightarrow> nat conn_func option \<Rightarrow> int \<Rightarrow> nat channelPool" where
  "test_pool xs m p d =
     \<lparr>conns = Some \<lparr>buf = map (\<lambda>x. \<lparr>conn = Some x, t = 0\<rparr>) xs, cap = m, closed = False\<rparr>,
      factory = Some test_factory, close = Some test_close, ping = p, idleTimeout = d\<rparr>"

definition released_pool :: "int \<Rightarrow> nat channelPool" where
  "released_pool d = \<lparr>conns = None, factory = None, close = None, ping = None, idleTimeout = d\<rparr>"

definition test_world :: "nat \<Rightarrow> nat list \<Rightarrow> int \<Rightarrow> nat world" where
  "test_world k ds n =
     \<lparr>created = k, destroyed = map Some ds, pinged = [], printed = [], now = n\<rparr>"

section \<open>Properties\<close>

subsection \<open>Auxiliary facts\<close>

lemma drain_Some:
  "drain (Some f) es w = Returned (w\<lparr>destroyed := destroyed w @ map conn es\<rparr>)"
  by (induction es arbitrary: w) simp_all

lemma Release_Returned:
  assumes "Release c w = Returned (c', w')"
  shows "c' = c\<lparr>conns := None, factory := None, ping := None, close := None\<rparr>"
  using assms
  by (auto simp: Release_def Let_def split: option.splits if_splits outcome.splits)

lemma Release_open:
  assumes "conns c = Some ch" "\<not> closed ch" "close c = Some cl"
  shows "Release c w =
           Returned (c\<lparr>conns := None, factory := None, ping := None, close := None\<rparr>,
                     w\<lparr>destroyed := destroyed w @ map conn (buf ch)\<rparr>)"
  using assms by (simp add: Release_def Let_def drain_Some)

lemma Release_released:
  assumes "conns c = None"
  shows "Release c w = Returned (c\<lparr>conns := None, factory := None, ping := None, close := None\<rparr>, w)"
  using assms by (simp add: Release_def Let_def)

text \<open>A filling loop that ends well has run the factory once per round and queued each result.\<close>

lemma fill_Inr:
  assumes "fill c n w = Returned (Inr c', w')" and "conns c = Some ch" and "factory c = Some f"
  shows "\<exists>es. c' = c\<lparr>conns := Some (ch\<lparr>buf := buf ch @ es\<rparr>)\<rparr>
              \<and> map (\<lambda>e. Inr (conn e)) es = map f [created w ..< created w + n]
              \<and> (\<forall>e \<in> set es. t e = now w)
              \<and> w' = w\<lparr>created := created w + n\<rparr>"
  using assms
proof (induction n arbitrary: c ch w)
  case 0
  then show ?case by simp
next
  case (Suc n)
  from Suc.prems obtain x where fx: "f (created w) = Inr x"
    by (cases "f (created w)") (auto split: outcome.splits)
  let ?e = "\<lparr>conn = x, t = now w\<rparr>"
  let ?ch = "ch\<lparr>buf := buf ch @ [?e]\<rparr>"
  let ?c = "c\<lparr>conns := Some ?ch\<rparr>"
  let ?w = "w\<lparr>created := Suc (created w)\<rparr>"
  from Suc.prems fx have rec: "fill ?c n ?w = Returned (Inr c', w')"
    by (simp split: if_splits)
  have "conns ?c = Some ?ch" "factory ?c = Some f"
    using Suc.prems by simp_all
  from Suc.IH [OF rec this] obtain es where es:
    "c' = ?c\<lparr>conns := Some (?ch\<lparr>buf := buf ?ch @ es\<rparr>)\<rparr>"
    "map (\<lambda>e. Inr (conn e)) es = map f [created ?w ..< created ?w + n]"
    "\<forall>e \<in> set es. t e = now ?w"
    "w' = ?w\<lparr>created := created ?w + n\<rparr>"
    by blast
  have "[created w ..< created w + Suc n] = created w # [Suc (created w) ..< Suc (created w) + n]"
    by (simp add: upt_conv_Cons)
  with es fx show ?case
    by (intro exI [of _ "?e # es"]) simp
qed

text \<open>The filling loop does end well when the channel has room and the factory does not fail.\<close>

lemma fill_succeeds:
  assumes "conns c = Some ch" "\<not> closed ch" "length (buf ch) + n \<le> cap ch" "factory c = Some f"
    and "\<forall>i < n. \<exists>x. f (created w + i) = Inr x"
  shows "\<exists>c' w'. fill c n w = Returned (Inr c', w')"
  using assms
proof (induction n arbitrary: c ch w)
  case 0
  then show ?case by simp
next
  case (Suc n)
  from Suc.prems(5) obtain x where fx: "f (created w) = Inr x"
    by force
  let ?ch = "ch\<lparr>buf := buf ch @ [\<lparr>conn = x, t = now w\<rparr>]\<rparr>"
  let ?c = "c\<lparr>conns := Some ?ch\<rparr>"
  let ?w = "w\<lparr>created := Suc (created w)\<rparr>"
  have "\<forall>i < n. \<exists>x. f (created ?w + i) = Inr x"
  proof (intro allI impI)
    fix i assume "i < n"
    then have "Suc i < Suc n" by simp
    with Suc.prems(5) obtain y where "f (created w + Suc i) = Inr y" by blast
    then show "\<exists>x. f (created ?w + i) = Inr x" by simp
  qed
  with Suc.prems have "\<exists>c' w'. fill ?c n ?w = Returned (Inr c', w')"
    by (intro Suc.IH [of ?c ?ch]) simp_all
  with Suc.prems fx show ?case by simp
qed

lemma NewChannelPool_succeeds:
  assumes "0 \<le> InitialCap poolConfig" "InitialCap poolConfig \<le> MaxCap poolConfig" "0 < MaxCap poolConfig"
    and "Factory poolConfig = Some f" "Close_cfg poolConfig \<noteq> None"
    and "\<forall>i < nat (InitialCap poolConfig). \<exists>x. f (created w + i) = Inr x"
  shows "\<exists>c w'. NewChannelPool poolConfig w = Returned (Inr c, w')"
proof -
  let ?ch = "\<lparr>buf = [], cap = nat (MaxCap poolConfig), closed = False\<rparr>"
  let ?c = "\<lparr>conns = Some ?ch, factory = Factory poolConfig, close = Close_cfg poolConfig,
             ping = Ping_cfg poolConfig, idleTimeout = IdleTimeout poolConfig\<rparr>"
  have "\<exists>c' w'. fill ?c (nat (InitialCap poolConfig)) w = Returned (Inr c', w')"
    using assms by (intro fill_succeeds [of ?c ?ch _ f]) simp_all
  with assms show ?thesis by (simp add: NewChannelPool_def)
qed

text \<open>
  With a ping callback that rejects everything and no idle timeout, the loop of \<open>Get\<close>
  empties the channel and returns what the factory makes; the close callback never runs.
\<close>

lemma get_loop_ping_always_fails:
  assumes "ping c = Some p" "\<And>x. p x \<noteq> None" "idleTimeout c \<le> 0" "\<not> closed ch"
    and "factory c = Some f"
  shows "\<exists>w'. get_loop c ch w = Some (Returned (f (created w)), ch\<lparr>buf := []\<rparr>, w')
              \<and> destroyed w' = destroyed w \<and> created w' = Suc (created w)"
  using assms(4)
proof (induction "buf ch" arbitrary: ch w)
  case Nil
  then have "ch\<lparr>buf := []\<rparr> = ch" by simp
  with Nil assms show ?case
    by (subst get_loop.simps) (simp split: sum.splits)
next
  case (Cons e es)
  let ?ch = "ch\<lparr>buf := es\<rparr>"
  obtain err w1 where pg: "Ping c w (conn e) = Returned (Some err, w1)"
    and w1: "destroyed w1 = destroyed w" "created w1 = created w"
    using assms(1,2) by (cases "conn e") (auto simp: Ping_def)
  let ?w = "w1\<lparr>printed := printed w1 @ [err]\<rparr>"
  have step: "get_loop c ch w = get_loop c ?ch ?w"
    using Cons.hyps(2) [symmetric] assms(1,3) pg by (subst get_loop.simps) simp
  have "es = buf ?ch" "\<not> closed ?ch"
    using Cons.prems by simp_all
  from Cons.hyps(1) [OF this, of ?w] w1 step show ?case
    by simp
qed

text \<open>Concrete runs of the constructor, used by the examples below.\<close>

lemma NewChannelPool_test:
  "NewChannelPool (test_config 2 2 p d) (test_world 0 [] 0)
     = Returned (Inr (test_pool [0, 1] 2 p d), test_world 2 [] 0)"
  "NewChannelPool (test_config 1 1 p d) (test_world 0 [] 0)
     = Returned (Inr (test_pool [0] 1 p d), test_world 1 [] 0)"
  by (simp_all add: NewChannelPool_def test_config_def test_pool_def test_world_def
        test_factory_def eval_nat_numeral)

lemmas test_defs = test_config_def test_pool_def test_world_def test_factory_def test_close_def
  test_ping_fail_def test_ping_ok_def released_pool_def

lemma Release_test:
  "Release (test_pool [0, 1] 2 p d) (test_world 2 [] 0)
     = Returned (released_pool d, test_world 2 [0, 1] 0)"
  by (simp add: Release_def Let_def test_defs)

subsection \<open>Return and Discard after Release\<close>

text \<open>
  Claim C1, at a pool built with connections 0 and 1. \<open>Get\<close> hands out connection 0, then
  the pool is released, which destroys the idle connection 1. \<open>Put\<close> of connection 0 takes
  the branch for a nil channel and calls \<open>Close\<close>, but \<open>Release\<close> has set the close callback
  to nil as well, so \<open>Close\<close> returns nil without calling it. \<open>Put\<close> and \<open>Close\<close> return nil,
  not \<open>ErrClosed\<close>, and the world is unchanged: connection 0 reaches the close callback
  zero times, not once, and the nil result is not the callback's, which reports an error.
\<close>

theorem Put_after_Release_leaks_connection:
  "NewChannelPool (test_config 2 2 None 0) (test_world 0 [] 0)
     = Returned (Inr (test_pool [0, 1] 2 None 0), test_world 2 [] 0)
   \<and> Get (test_pool [0, 1] 2 None 0) (test_world 2 [] 0)
       = Some (Returned (Inr (Some 0)), test_pool [1] 2 None 0, test_world 2 [] 0)
   \<and> Release (test_pool [1] 2 None 0) (test_world 2 [] 0)
       = Returned (released_pool 0, test_world 2 [1] 0)
   \<and> Put (released_pool 0) (test_world 2 [1] 0) (Some 0)
       = Returned (None, released_pool 0, test_world 2 [1] 0)
   \<and> Close (released_pool 0) (test_world 2 [1] 0) (Some 0) = (None, test_world 2 [1] 0)
   \<and> count_list (destroyed (test_world 2 [1] 0)) (Some 0) = 0
   \<and> test_close (Some 0) = Some (CallbackError ''close failed'')"
proof (intro conjI)
  show "NewChannelPool (test_config 2 2 None 0) (test_world 0 [] 0)
     = Returned (Inr (test_pool [0, 1] 2 None 0), test_world 2 [] 0)"
    by (rule NewChannelPool_test)
qed (simp_all add: Get_def get_loop.simps Release_def Let_def Put_def Close_def test_defs)

subsection \<open>Failed validation in Get\<close>

text \<open>
  Claim C2, at a pool built with one connection and a ping callback that rejects every
  connection. \<open>Get\<close> pings connection 0, prints the error, drops the entry and returns the
  fresh connection 1; the idle store is empty afterwards. The close callback has not run:
  connection 0 is dropped without being destroyed, where the idle-timeout branch of the
  same loop calls \<open>Close\<close> before it continues.
\<close>

theorem Get_failed_ping_drops_without_destroy:
  "NewChannelPool (test_config 1 1 (Some test_ping_fail) 0) (test_world 0 [] 0)
     = Returned (Inr (test_pool [0] 1 (Some test_ping_fail) 0), test_world 1 [] 0)
   \<and> Get (test_pool [0] 1 (Some test_ping_fail) 0) (test_world 1 [] 0)
       = Some (Returned (Inr (Some 1)), test_pool [] 1 (Some test_ping_fail) 0,
               \<lparr>created = 2, destroyed = [], pinged = [Some 0],
                printed = [CallbackError ''unreachable''], now = 0\<rparr>)"
proof (intro conjI)
  show "NewChannelPool (test_config 1 1 (Some test_ping_fail) 0) (test_world 0 [] 0)
     = Returned (Inr (test_pool [0] 1 (Some test_ping_fail) 0), test_world 1 [] 0)"
    by (rule NewChannelPool_test)
qed (simp_all add: Get_def get_loop.simps Ping_def test_defs)

subsection \<open>Borrow after Return\<close>

text \<open>
  Claim C3, as amended. With the idle timeout off, after a non-nil connection is put into
  an open pool whose idle store is not full, the next \<open>Get\<close> returns the entry at the head
  of the store, provided the ping callback, if there is one, accepts that entry. This is
  the connection just put back when the store was empty at the \<open>Put\<close>, and the oldest idle
  connection otherwise. The clock may have moved between the two calls.
\<close>

theorem Get_after_Put_returns_oldest_entry:
  assumes "conns c = Some ch" "\<not> closed ch" "length (buf ch) < cap ch" "idleTimeout c \<le> 0"
    and "buf ch @ [\<lparr>conn = Some r, t = now w\<rparr>] = e # es"
    and "case ping c of None \<Rightarrow> True | Some p \<Rightarrow> conn e \<noteq> None \<and> p (conn e) = None"
  shows "Put c w (Some r) = Returned (None, c\<lparr>conns := Some (ch\<lparr>buf := e # es\<rparr>)\<rparr>, w)
       \<and> Get (c\<lparr>conns := Some (ch\<lparr>buf := e # es\<rparr>)\<rparr>) (w\<lparr>now := n\<rparr>)
           = Some (Returned (Inr (conn e)), c\<lparr>conns := Some (ch\<lparr>buf := es\<rparr>)\<rparr>,
                   if ping c = None then w\<lparr>now := n\<rparr>
                   else w\<lparr>now := n, pinged := pinged w @ [conn e]\<rparr>)
       \<and> conn e = (case buf ch of [] \<Rightarrow> Some r | oldest # later \<Rightarrow> conn oldest)"
proof -
  let ?ch = "ch\<lparr>buf := e # es\<rparr>"
  let ?c = "c\<lparr>conns := Some ?ch\<rparr>"
  let ?w = "if ping c = None then w\<lparr>now := n\<rparr> else w\<lparr>now := n, pinged := pinged w @ [conn e]\<rparr>"
  have put: "Put c w (Some r) = Returned (None, ?c, w)"
    using assms(1-3) by (simp add: Put_def assms(5))
  have "get_loop ?c ?ch (w\<lparr>now := n\<rparr>) = Some (Returned (Inr (conn e)), ch\<lparr>buf := es\<rparr>, ?w)"
    using assms(4,6) by (subst get_loop.simps) (auto simp: Ping_def split: option.splits)
  then have get: "Get ?c (w\<lparr>now := n\<rparr>)
               = Some (Returned (Inr (conn e)), c\<lparr>conns := Some (ch\<lparr>buf := es\<rparr>)\<rparr>, ?w)"
    by (simp add: Get_def)
  have "conn e = (case buf ch of [] \<Rightarrow> Some r | oldest # later \<Rightarrow> conn oldest)"
    using assms(5) by (cases "buf ch") auto
  with put get show ?thesis by simp
qed

theorem Get_after_Put_returns_oldest_entry_witness:
  "Put (test_pool [] 2 None 0) (test_world 1 [] 0) (Some 0)
     = Returned (None, test_pool [0] 2 None 0, test_world 1 [] 0)
   \<and> Get (test_pool [0] 2 None 0) (test_world 1 [] 3)
     = Some (Returned (Inr (Some 0)), test_pool [] 2 None 0, test_world 1 [] 3)
   \<and> Put (test_pool [5] 2 (Some test_ping_ok) 0) (test_world 6 [] 0) (Some 4)
     = Returned (None, test_pool [5, 4] 2 (Some test_ping_ok) 0, test_world 6 [] 0)
   \<and> Get (test_pool [5, 4] 2 (Some test_ping_ok) 0) (test_world 6 [] 3)
     = Some (Returned (Inr (Some 5)), test_pool [4] 2 (Some test_ping_ok) 0,
             (test_world 6 [] 3)\<lparr>pinged := [Some 5]\<rparr>)"
  using Get_after_Put_returns_oldest_entry
    [of "test_pool [] 2 None 0" "\<lparr>buf = [], cap = 2, closed = False\<rparr>" 0 "test_world 1 [] 0"
        "\<lparr>conn = Some 0, t = 0\<rparr>" "[]" 3]
    Get_after_Put_returns_oldest_entry
    [of "test_pool [5] 2 (Some test_ping_ok) 0"
        "\<lparr>buf = [\<lparr>conn = Some 5, t = 0\<rparr>], cap = 2, closed = False\<rparr>" 4
        "test_world 6 [] 0" "\<lparr>conn = Some 5, t = 0\<rparr>" "[\<lparr>conn = Some 4, t = 0\<rparr>]" 3]
  by (simp add: test_defs)

text \<open>
  Claim C3 as stated fails: the channel is a queue, and \<open>Get\<close> takes the oldest entry. A
  pool is built with connections 0 and 1. \<open>Get\<close> returns 0, which is put back behind 1; the
  \<open>Get\<close> right after that \<open>Put\<close> returns 1, not the connection 0 that was just returned.
\<close>

theorem Get_after_Put_same_instance_counterexample:
  "NewChannelPool (test_config 2 2 None 0) (test_world 0 [] 0)
     = Returned (Inr (test_pool [0, 1] 2 None 0), test_world 2 [] 0)
   \<and> Get (test_pool [0, 1] 2 None 0) (test_world 2 [] 0)
       = Some (Returned (Inr (Some 0)), test_pool [1] 2 None 0, test_world 2 [] 0)
   \<and> Put (test_pool [1] 2 None 0) (test_world 2 [] 0) (Some 0)
       = Returned (None, test_pool [1, 0] 2 None 0, test_world 2 [] 0)
   \<and> Get (test_pool [1, 0] 2 None 0) (test_world 2 [] 0)
       = Some (Returned (Inr (Some 1)), test_pool [0] 2 None 0, test_world 2 [] 0)
   \<and> Some (1::nat) \<noteq> Some 0"
proof (intro conjI)
  show "NewChannelPool (test_config 2 2 None 0) (test_world 0 [] 0)
     = Returned (Inr (test_pool [0, 1] 2 None 0), test_world 2 [] 0)"
    by (rule NewChannelPool_test)
qed (simp_all add: Get_def get_loop.simps Put_def test_defs)

subsection \<open>Construction\<close>

text \<open>
  Claim C4. When \<open>NewChannelPool\<close> returns a pool, the factory has run exactly
  \<open>InitialCap\<close> times, the idle store holds the results of those calls in order, each
  stamped with the current time, nothing was destroyed, and \<open>Len\<close> is \<open>InitialCap\<close>.
\<close>

theorem NewChannelPool_initial_fill:
  assumes "NewChannelPool poolConfig w = Returned (Inr c, w')"
  shows "\<exists>f ch. Factory poolConfig = Some f \<and> conns c = Some ch
           \<and> map (\<lambda>e. Inr (conn e)) (buf ch)
               = map f [created w ..< created w + nat (InitialCap poolConfig)]
           \<and> map t (buf ch) = replicate (nat (InitialCap poolConfig)) (now w)
           \<and> created w' = created w + nat (InitialCap poolConfig)
           \<and> destroyed w' = destroyed w
           \<and> Len c = nat (InitialCap poolConfig)"
proof -
  let ?N = "nat (InitialCap poolConfig)"
  let ?ch = "\<lparr>buf = [], cap = nat (MaxCap poolConfig), closed = False\<rparr>"
  let ?c = "\<lparr>conns = Some ?ch, factory = Factory poolConfig, close = Close_cfg poolConfig,
             ping = Ping_cfg poolConfig, idleTimeout = IdleTimeout poolConfig\<rparr>"
  from assms obtain f where f: "Factory poolConfig = Some f"
    by (auto simp: NewChannelPool_def split: if_splits)
  from assms have "fill ?c ?N w = Returned (Inr c, w')"
    by (simp add: NewChannelPool_def split: if_splits)
  from fill_Inr [OF this, of ?ch f] f obtain es where es:
    "c = ?c\<lparr>conns := Some (?ch\<lparr>buf := buf ?ch @ es\<rparr>)\<rparr>"
    "map (\<lambda>e. Inr (conn e)) es = map f [created w ..< created w + ?N]"
    "\<forall>e \<in> set es. t e = now w"
    "w' = w\<lparr>created := created w + ?N\<rparr>"
    by auto
  have "length (map (\<lambda>e. Inr (conn e) :: error + 'a option) es) = length (map f [created w ..< created w + ?N])"
    by (simp only: es(2))
  then have len: "length es = ?N" by simp
  have "map t es = replicate (length es) (now w)"
    using es(3) by (induction es) simp_all
  with es f len show ?thesis by (simp add: Len_def)
qed

theorem NewChannelPool_initial_fill_witness:
  "NewChannelPool (test_config 2 2 None 0) (test_world 0 [] 0)
     = Returned (Inr (test_pool [0, 1] 2 None 0), test_world 2 [] 0)
   \<and> created (test_world 2 [] 0) = created (test_world 0 [] 0) + 2
   \<and> destroyed (test_world 2 [] 0) = destroyed (test_world 0 [] 0)
   \<and> Len (test_pool [0, 1] 2 None 0) = 2"
proof -
  have r: "NewChannelPool (test_config 2 2 None 0) (test_world 0 [] 0)
     = Returned (Inr (test_pool [0, 1] 2 None 0), test_world 2 [] 0)"
    by (rule NewChannelPool_test)
  from NewChannelPool_initial_fill [OF r] r show ?thesis
    by (auto simp: test_config_def)
qed

text \<open>
  Claim C5. If \<open>InitialCap > MaxCap\<close>, \<open>MaxCap \<le> 0\<close>, \<open>InitialCap < 0\<close>, or the factory or
  the close callback is nil, \<open>NewChannelPool\<close> returns one of its three configuration
  errors and no pool, and the world is unchanged: no callback has run.
\<close>

theorem NewChannelPool_config_errors:
  assumes "InitialCap poolConfig > MaxCap poolConfig \<or> MaxCap poolConfig \<le> 0
           \<or> InitialCap poolConfig < 0
           \<or> Factory poolConfig = None \<or> Close_cfg poolConfig = None"
  shows "NewChannelPool poolConfig w
           = Returned (Inl (if InitialCap poolConfig < 0 \<or> MaxCap poolConfig \<le> 0
                               \<or> InitialCap poolConfig > MaxCap poolConfig
                            then InvalidCapacity
                            else if Factory poolConfig = None then InvalidFactoryFunc
                            else InvalidCloseFunc), w)"
  using assms by (auto simp: NewChannelPool_def)

theorem NewChannelPool_config_errors_witness:
  "NewChannelPool (test_config 3 2 None 0) (test_world 0 [] 0) = Returned (Inl InvalidCapacity, test_world 0 [] 0)
   \<and> NewChannelPool (test_config 0 0 None 0) (test_world 0 [] 0) = Returned (Inl InvalidCapacity, test_world 0 [] 0)
   \<and> NewChannelPool (test_config (- 1) 2 None 0) (test_world 0 [] 0) = Returned (Inl InvalidCapacity, test_world 0 [] 0)
   \<and> NewChannelPool ((test_config 1 2 None 0)\<lparr>Factory := None\<rparr>) (test_world 0 [] 0)
       = Returned (Inl InvalidFactoryFunc, test_world 0 [] 0)
   \<and> NewChannelPool ((test_config 1 2 None 0)\<lparr>Close_cfg := None\<rparr>) (test_world 0 [] 0)
       = Returned (Inl InvalidCloseFunc, test_world 0 [] 0)"
  using NewChannelPool_config_errors [of "test_config 3 2 None 0" "test_world 0 [] 0"]
    NewChannelPool_config_errors [of "test_config 0 0 None 0" "test_world 0 [] 0"]
    NewChannelPool_config_errors [of "test_config (- 1) 2 None 0" "test_world 0 [] 0"]
    NewChannelPool_config_errors [of "(test_config 1 2 None 0)\<lparr>Factory := None\<rparr>" "test_world 0 [] 0"]
    NewChannelPool_config_errors [of "(test_config 1 2 None 0)\<lparr>Close_cfg := None\<rparr>" "test_world 0 [] 0"]
  by (simp add: test_config_def)

subsection \<open>Borrow after Release\<close>

text \<open>
  Claim C6. After \<open>Release\<close> has returned, the pool's channel reference is nil and \<open>Get\<close>
  returns \<open>ErrClosed\<close>, leaving pool and world unchanged, so nothing is created. The loop
  of \<open>Get\<close> on a snapshot of the closed, drained channel returns \<open>ErrClosed\<close> as well.
\<close>

theorem Get_after_Release_ErrClosed:
  assumes "Release c w = Returned (c', w')"
  shows "conns c' = None
       \<and> Get c' v = Some (Returned (Inl ErrClosed), c', v)
       \<and> get_loop c' \<lparr>buf = [], cap = k, closed = True\<rparr> v
           = Some (Returned (Inl ErrClosed), \<lparr>buf = [], cap = k, closed = True\<rparr>, v)"
proof -
  from Release_Returned [OF assms] have "conns c' = None" by simp
  moreover from this have "Get c' v = Some (Returned (Inl ErrClosed), c', v)"
    by (simp add: Get_def)
  moreover have "get_loop c' \<lparr>buf = [], cap = k, closed = True\<rparr> v
           = Some (Returned (Inl ErrClosed), \<lparr>buf = [], cap = k, closed = True\<rparr>, v)"
    by (subst get_loop.simps) simp
  ultimately show ?thesis by simp
qed

theorem Get_after_Release_ErrClosed_witness:
  "Release (test_pool [0, 1] 2 None 0) (test_world 2 [] 0)
     = Returned (released_pool 0, test_world 2 [0, 1] 0)
   \<and> Get (released_pool 0) (test_world 2 [0, 1] 9)
       = Some (Returned (Inl ErrClosed), released_pool 0, test_world 2 [0, 1] 9)"
proof -
  have r: "Release (test_pool [0, 1] 2 None 0) (test_world 2 [] 0)
             = Returned (released_pool 0, test_world 2 [0, 1] 0)"
    by (rule Release_test)
  from Get_after_Release_ErrClosed [OF r, of "test_world 2 [0, 1] 9"] r show ?thesis
    by simp
qed

subsection \<open>Idle timeout\<close>

text \<open>
  Claim C7. With a positive idle timeout, when the entry at the head of the idle store is
  older than the timeout, the loop of \<open>Get\<close> hands its connection to the close callback,
  drops the callback's result, and goes on with the rest of the store. If that entry was
  the only one, \<open>Get\<close> returns what one call of the factory yields, and the number of
  factory calls has grown by exactly one.
\<close>

theorem Get_idle_timeout_eviction:
  assumes "0 < idleTimeout c" "conns c = Some ch" "buf ch = e # es"
    and "t e + idleTimeout c < now w" "conn e = Some r" "close c = Some cl"
  shows "get_loop c ch w
           = get_loop c (ch\<lparr>buf := es\<rparr>) (w\<lparr>destroyed := destroyed w @ [Some r]\<rparr>)
       \<and> (es = [] \<and> \<not> closed ch \<and> factory c = Some f \<longrightarrow>
            Get c w = Some (Returned (f (created w)), c\<lparr>conns := Some (ch\<lparr>buf := []\<rparr>)\<rparr>,
                            w\<lparr>destroyed := destroyed w @ [Some r], created := Suc (created w)\<rparr>))"
proof -
  let ?w = "w\<lparr>destroyed := destroyed w @ [Some r]\<rparr>"
  have step: "get_loop c ch w = get_loop c (ch\<lparr>buf := es\<rparr>) ?w"
    using assms by (subst get_loop.simps) (simp add: Close_def)
  have "Get c w = Some (Returned (f (created w)), c\<lparr>conns := Some (ch\<lparr>buf := []\<rparr>)\<rparr>,
                        w\<lparr>destroyed := destroyed w @ [Some r], created := Suc (created w)\<rparr>)"
    if a: "es = []" "\<not> closed ch" "factory c = Some f"
  proof -
    have "get_loop c (ch\<lparr>buf := []\<rparr>) ?w
            = Some (Returned (f (created w)), ch\<lparr>buf := []\<rparr>,
                    w\<lparr>destroyed := destroyed w @ [Some r], created := Suc (created w)\<rparr>)"
      using a by (subst get_loop.simps) (simp split: sum.splits)
    with step a assms(2) show ?thesis by (simp add: Get_def)
  qed
  with step show ?thesis by blast
qed

theorem Get_idle_timeout_eviction_witness:
  "(0::int) < 5 \<and> (0::int) + 5 < 6
   \<and> Get (test_pool [0] 1 None 5) (test_world 1 [] 6)
       = Some (Returned (Inr (Some 1)), test_pool [] 1 None 5, test_world 2 [0] 6)"
  using Get_idle_timeout_eviction
    [of "test_pool [0] 1 None 5" "\<lparr>buf = [\<lparr>conn = Some 0, t = 0\<rparr>], cap = 1, closed = False\<rparr>"
        "\<lparr>conn = Some 0, t = 0\<rparr>" "[]" "test_world 1 [] 6" 0 test_close test_factory]
  by (simp add: test_defs)

subsection \<open>Return to a full store\<close>

text \<open>
  Claim C8. \<open>Put\<close> of a non-nil connection into an open pool whose idle store is full does
  not change the store: the connection goes to the close callback, \<open>Put\<close> returns that
  callback's result, and \<open>Len\<close> is still the capacity.
\<close>

theorem Put_full_store_destroys:
  assumes "conns c = Some ch" "\<not> closed ch" "length (buf ch) = cap ch" "close c = Some cl"
  shows "Put c w (Some r) = Returned (cl (Some r), c, w\<lparr>destroyed := destroyed w @ [Some r]\<rparr>)
       \<and> Len c = cap ch"
  using assms by (simp add: Put_def Close_def Len_def)

theorem Put_full_store_destroys_witness:
  "Put (test_pool [0, 1] 2 None 0) (test_world 2 [] 0) (Some 7)
     = Returned (Some (CallbackError ''close failed''), test_pool [0, 1] 2 None 0, test_world 2 [7] 0)
   \<and> Len (test_pool [0, 1] 2 None 0) = 2"
  using Put_full_store_destroys
    [of "test_pool [0, 1] 2 None 0"
        "\<lparr>buf = [\<lparr>conn = Some 0, t = 0\<rparr>, \<lparr>conn = Some 1, t = 0\<rparr>], cap = 2, closed = False\<rparr>"
        test_close "test_world 2 [] 0" 7]
  by (simp add: test_defs)

subsection \<open>Release twice\<close>

text \<open>
  Claim C9. The first \<open>Release\<close> of an open pool sets the channel and the three callbacks
  to nil and runs the captured close callback once on every idle entry, in order, without
  reporting its results. A second \<open>Release\<close> returns at once: pool and world stay as they
  are, so nothing is destroyed again.
\<close>

theorem Release_idempotent:
  assumes "conns c = Some ch" "\<not> closed ch" "close c = Some cl"
  shows "Release c w
           = Returned (c\<lparr>conns := None, factory := None, ping := None, close := None\<rparr>,
                       w\<lparr>destroyed := destroyed w @ map conn (buf ch)\<rparr>)
       \<and> Release (c\<lparr>conns := None, factory := None, ping := None, close := None\<rparr>) v
           = Returned (c\<lparr>conns := None, factory := None, ping := None, close := None\<rparr>, v)"
  using assms by (simp add: Release_open Release_released)

theorem Release_idempotent_witness:
  "Release (test_pool [0, 1] 2 None 0) (test_world 2 [] 0)
     = Returned (released_pool 0, test_world 2 [0, 1] 0)
   \<and> Release (released_pool 0) (test_world 2 [0, 1] 0)
     = Returned (released_pool 0, test_world 2 [0, 1] 0)"
  using Release_idempotent
    [of "test_pool [0, 1] 2 None 0"
        "\<lparr>buf = [\<lparr>conn = Some 0, t = 0\<rparr>, \<lparr>conn = Some 1, t = 0\<rparr>], cap = 2, closed = False\<rparr>"
        test_close "test_world 2 [] 0" "test_world 2 [0, 1] 0"]
  by (simp add: test_defs)

subsection \<open>Ping without a callback\<close>

text \<open>
  Claim C10. \<open>Ping\<close> with a non-nil connection panics on a pool that has no ping callback,
  and so on every pool after \<open>Release\<close>, where \<open>Close\<close> returns nil instead because it
  checks for a nil callback. On a pool that has a ping callback, \<open>Ping\<close> returns the
  callback's result.
\<close>

theorem Ping_nil_callback_panics:
  assumes "ping c = None" and "Release c0 w0 = Returned (c', w')" and "ping c1 = Some p"
  shows "Ping c w (Some r) = Panicked
       \<and> Ping c' v (Some r) = Panicked
       \<and> Close c' v (Some r) = (None, v)
       \<and> Ping c1 w (Some r) = Returned (p (Some r), w\<lparr>pinged := pinged w @ [Some r]\<rparr>)"
  using assms(1,3) Release_Returned [OF assms(2)] by (simp add: Ping_def Close_def)

theorem Ping_nil_callback_panics_witness:
  "Ping (test_pool [0] 1 None 0) (test_world 1 [] 0) (Some 0) = Panicked
   \<and> Release (test_pool [0, 1] 2 (Some test_ping_fail) 0) (test_world 2 [] 0)
       = Returned (released_pool 0, test_world 2 [0, 1] 0)
   \<and> Ping (released_pool 0) (test_world 2 [0, 1] 0) (Some 0) = Panicked
   \<and> Close (released_pool 0) (test_world 2 [0, 1] 0) (Some 0) = (None, test_world 2 [0, 1] 0)
   \<and> Ping (test_pool [0] 1 (Some test_ping_fail) 0) (test_world 1 [] 0) (Some 0)
       = Returned (Some (CallbackError ''unreachable''), (test_world 1 [] 0)\<lparr>pinged := [Some 0]\<rparr>)"
proof -
  have r: "Release (test_pool [0, 1] 2 (Some test_ping_fail) 0) (test_world 2 [] 0)
       = Returned (released_pool 0, test_world 2 [0, 1] 0)"
    by (rule Release_test)
  have n: "ping (test_pool [0] 1 None 0) = None"
    by (simp add: test_pool_def)
  have s: "ping (test_pool [0] 1 (Some test_ping_fail) 0) = Some test_ping_fail"
    by (simp add: test_pool_def)
  from Ping_nil_callback_panics [OF n r s, of "test_world 1 [] 0" 0 "test_world 2 [0, 1] 0"] r
  show ?thesis
    by (simp add: test_ping_fail_def test_world_def)
qed

end
